theory Spec2Isabelle
  imports Main "HOL-Library.Word"
begin

unbundle bit_operations_syntax

section \<open>Bytes, errors and the library calls of the two icon scripts\<close>

text \<open>
  A Python \<^verbatim>\<open>bytes\<close> object is a list of 8-bit words; Python integers are unbounded
  (\<^typ>\<open>int\<close>). The two exceptions that the library calls of the scripts can raise on
  their arguments are values of \<open>error\<close>.
\<close>

type_synonym byte = "8 word"
type_synonym bytes = "byte list"

datatype error = StructError | Base64Error

text \<open>
  A call that may raise, followed by the rest of the function: the exception ends the
  function, a value is passed on.
\<close>

fun or_raise :: "error + 'a \<Rightarrow> ('a \<Rightarrow> error + 'b) \<Rightarrow> error + 'b" where
  "or_raise (Inl e) k = Inl e"
| "or_raise (Inr x) k = k x"

subsection \<open>\<^verbatim>\<open>struct.pack\<close> with a big-endian format\<close>

text \<open>
  The formats used are \<^verbatim>\<open>'>IIBBBBB'\<close> and \<^verbatim>\<open>'>I'\<close>: \<open>I\<close> is an unsigned 32-bit
  field, \<open>B\<close> an unsigned byte, most significant byte first, no padding. A value
  outside the field's range raises \<^verbatim>\<open>struct.error\<close>, and so does a number of
  arguments different from the number of fields.
\<close>

datatype fmt = I | B

definition be32 :: "int \<Rightarrow> bytes" where
  "be32 n = [word_of_int (n div 16777216), word_of_int (n div 65536),
             word_of_int (n div 256), word_of_int n]"

fun pack_field :: "fmt \<Rightarrow> int \<Rightarrow> error + bytes" where
  "pack_field I n = (if 0 \<le> n \<and> n \<le> 4294967295 then Inr (be32 n) else Inl StructError)"
| "pack_field B n = (if 0 \<le> n \<and> n \<le> 255 then Inr [word_of_int n] else Inl StructError)"

fun struct_pack :: "fmt list \<Rightarrow> int list \<Rightarrow> error + bytes" where
  "struct_pack [] [] = Inr []"
| "struct_pack (f # fs) (v # vs) =
     (case pack_field f v of
        Inl e \<Rightarrow> Inl e
      | Inr b \<Rightarrow> (case struct_pack fs vs of Inl e \<Rightarrow> Inl e | Inr bs \<Rightarrow> Inr (b @ bs)))"
| "struct_pack _ _ = Inl StructError"

subsection \<open>\<^verbatim>\<open>zlib.crc32\<close>\<close>

text \<open>
  The CRC-32 of zlib and PNG: reflected polynomial \<open>0xEDB88320\<close>, register
  initialised to all ones, result complemented. The result is a 32-bit value, which
  Python returns as a non-negative integer (\<open>uint\<close> of the word).
\<close>

definition crc_shift :: "32 word \<Rightarrow> 32 word" where
  "crc_shift c = (if bit c 0 then drop_bit 1 c XOR 0xEDB88320 else drop_bit 1 c)"

definition crc_byte :: "byte \<Rightarrow> 32 word \<Rightarrow> 32 word" where
  "crc_byte b c = (crc_shift ^^ 8) (c XOR ucast b)"

definition crc32 :: "bytes \<Rightarrow> int" where
  "crc32 bs = uint (fold crc_byte bs 0xFFFFFFFF XOR 0xFFFFFFFF)"

subsection \<open>Byte-string literals\<close>

definition png_signature :: bytes where
  "png_signature = [0x89, 0x50, 0x4E, 0x47, 0x0D, 0x0A, 0x1A, 0x0A]"

definition IHDR :: bytes where
  "IHDR = [0x49, 0x48, 0x44, 0x52]"

definition IDAT :: bytes where
  "IDAT = [0x49, 0x44, 0x41, 0x54]"

definition IEND :: bytes where
  "IEND = [0x49, 0x45, 0x4E, 0x44]"

section \<open>The first script: \<^verbatim>\<open>create-icons.py\<close>\<close>

subsection \<open>The scanline loops\<close>

text \<open>
  The inner loop appends the pixel \<^verbatim>\<open>b'\x00\x77\xb5'\<close> to \<open>row\<close> once per
  \<open>x\<close> in \<^verbatim>\<open>range(width)\<close>; the outer loop starts each row with the filter byte
  \<^verbatim>\<open>b'\x00'\<close> and appends the finished row to \<open>raw_data\<close>, once per \<open>y\<close> in
  \<^verbatim>\<open>range(height)\<close>. \<^verbatim>\<open>range(n)\<close> runs \<open>nat n\<close> times (not at all for
  \<open>n \<le> 0\<close>).
\<close>

fun pixel_loop :: "nat \<Rightarrow> bytes \<Rightarrow> bytes" where
  "pixel_loop 0 row = row"
| "pixel_loop (Suc n) row = pixel_loop n (row @ [0x00, 0x77, 0xB5])"

fun row_loop :: "nat \<Rightarrow> int \<Rightarrow> bytes \<Rightarrow> bytes" where
  "row_loop 0 width raw_data = raw_data"
| "row_loop (Suc n) width raw_data =
     row_loop n width (raw_data @ pixel_loop (nat width) [0x00])"

definition raw_data :: "int \<Rightarrow> int \<Rightarrow> bytes" where
  "raw_data width height = row_loop (nat height) width []"

subsection \<open>\<^verbatim>\<open>create_minimal_png\<close>\<close>

text \<open>
  \<^verbatim>\<open>zlib.compress\<close> is the library's deflate encoder; its output depends on the
  zlib build and level, so it is the parameter \<open>compress\<close> of the model. Every
  \<^verbatim>\<open>struct.pack\<close> call of the source is a call that can raise.
\<close>

definition create_minimal_png :: "(bytes \<Rightarrow> bytes) \<Rightarrow> int \<Rightarrow> int \<Rightarrow> error + bytes" where
  "create_minimal_png compress width height =
     (let signature = png_signature in
      or_raise (struct_pack [I, I, B, B, B, B, B] [width, height, 8, 2, 0, 0, 0]) (\<lambda>ihdr_data.
      let ihdr_crc = crc32 (IHDR @ ihdr_data) in
      or_raise (struct_pack [I] [13]) (\<lambda>ihdr_len.
      or_raise (struct_pack [I] [ihdr_crc]) (\<lambda>ihdr_crc_bytes.
      let ihdr_chunk = ihdr_len @ IHDR @ ihdr_data @ ihdr_crc_bytes;
          compressed = compress (raw_data width height);
          idat_crc = crc32 (IDAT @ compressed) in
      or_raise (struct_pack [I] [int (length compressed)]) (\<lambda>idat_len.
      or_raise (struct_pack [I] [idat_crc]) (\<lambda>idat_crc_bytes.
      let idat_chunk = idat_len @ IDAT @ compressed @ idat_crc_bytes;
          iend_crc = crc32 IEND in
      or_raise (struct_pack [I] [0]) (\<lambda>iend_len.
      or_raise (struct_pack [I] [iend_crc]) (\<lambda>iend_crc_bytes.
      let iend_chunk = iend_len @ IEND @ iend_crc_bytes;
          png_data = signature @ ihdr_chunk @ idat_chunk @ iend_chunk in
      Inr png_data))))))))"

subsection \<open>The script body\<close>

text \<open>
  The scripts act on the file system and on standard output. \<open>files\<close> maps a path
  to the contents of the file there, \<open>opened\<close> lists the paths opened for writing,
  in order, and \<open>stdout\<close> the lines printed, in order. Opening with mode
  \<^verbatim>\<open>'wb'\<close> creates or truncates the file; \<^verbatim>\<open>f.write\<close> appends to what the handle
  has written so far. The file system itself never fails here: a missing directory
  or a permission error ends the real script with an unhandled \<^verbatim>\<open>OSError\<close> and is
  outside the model.
\<close>

record world =
  files :: "string \<rightharpoonup> bytes"
  opened :: "string list"
  stdout :: "string list"

definition open_wb :: "string \<Rightarrow> world \<Rightarrow> world" where
  "open_wb filename w = w\<lparr>files := (files w)(filename \<mapsto> []), opened := opened w @ [filename]\<rparr>"

definition f_write :: "string \<Rightarrow> bytes \<Rightarrow> world \<Rightarrow> world" where
  "f_write filename data w =
     w\<lparr>files := (files w)(filename \<mapsto> (case files w filename of None \<Rightarrow> data | Some old \<Rightarrow> old @ data))\<rparr>"

definition print :: "string \<Rightarrow> world \<Rightarrow> world" where
  "print line w = w\<lparr>stdout := stdout w @ [line]\<rparr>"

text \<open>The decimal rendering of an integer in an f-string.\<close>

fun digits :: "nat \<Rightarrow> string" where
  "digits n = (if n < 10 then [''0123456789'' ! n]
               else digits (n div 10) @ [''0123456789'' ! (n mod 10)])"

declare digits.simps [simp del]

definition str :: "int \<Rightarrow> string" where
  "str n = (if n < 0 then CHR ''-'' # digits (nat (- n)) else digits (nat n))"

definition sizes :: "int list" where
  "sizes = [16, 32, 48, 128]"

text \<open>
  A run ends with the world it has reached and the exception that ended it, if any.
  \<open>icon_path\<close> names the path that both scripts build for a size.
\<close>

definition icon_path :: "int \<Rightarrow> string" where
  "icon_path size' = ''assets/icons/icon'' @ str size' @ ''.png''"

fun first_script_loop :: "(bytes \<Rightarrow> bytes) \<Rightarrow> int list \<Rightarrow> world \<Rightarrow> world \<times> error option" where
  "first_script_loop compress [] w = (w, None)"
| "first_script_loop compress (size' # rest) w =
     (case create_minimal_png compress size' size' of
        Inl e \<Rightarrow> (w, Some e)
      | Inr png_data \<Rightarrow>
          (let filename = ''assets/icons/icon'' @ str size' @ ''.png'';
               w1 = open_wb filename w;
               w2 = f_write filename png_data w1;
               w3 = print (''Created '' @ filename) w2
           in first_script_loop compress rest w3))"

definition first_script :: "(bytes \<Rightarrow> bytes) \<Rightarrow> world \<Rightarrow> world \<times> error option" where
  "first_script compress w =
     (case first_script_loop compress sizes w of
        (w', Some e) \<Rightarrow> (w', Some e)
      | (w', None) \<Rightarrow> (print ''All icon files created successfully!'' w', None))"

section \<open>The second script: \<^verbatim>\<open>create_icons.py\<close>\<close>

subsection \<open>\<^verbatim>\<open>base64.b64decode\<close>\<close>

text \<open>
  The standard alphabet, four characters to three bytes, \<open>=\<close> padding in the last
  group only. The model decodes canonical input, which is what the script passes;
  on other input it gives \<open>Base64Error\<close>, also where Python would discard characters
  outside the alphabet and go on.
\<close>

definition b64_alphabet :: string where
  "b64_alphabet = ''ABCDEFGHIJKLMNOPQRSTUVWXYZabcdefghijklmnopqrstuvwxyz0123456789+/''"

fun index_of :: "'a \<Rightarrow> 'a list \<Rightarrow> nat option" where
  "index_of x [] = None"
| "index_of x (y # ys) = (if x = y then Some 0 else map_option Suc (index_of x ys))"

definition b64_value :: "char \<Rightarrow> nat option" where
  "b64_value c = index_of c b64_alphabet"

definition b64_group :: "char list \<Rightarrow> nat \<Rightarrow> error + bytes" where
  "b64_group cs pad =
     (case those (map b64_value cs) of
        None \<Rightarrow> Inl Base64Error
      | Some vs \<Rightarrow>
          (let n = fold (\<lambda>v acc. acc * 64 + v) vs 0 * 64 ^ pad
           in Inr (take (3 - pad) [of_nat (n div 65536), of_nat (n div 256), of_nat n])))"

fun b64decode :: "string \<Rightarrow> error + bytes" where
  "b64decode [] = Inr []"
| "b64decode [a, b, c, d] =
     (if c = CHR ''='' \<and> d = CHR ''='' then b64_group [a, b] 2
      else if d = CHR ''='' then b64_group [a, b, c] 1
      else b64_group [a, b, c, d] 0)"
| "b64decode (a # b # c # d # rest) =
     or_raise (b64_group [a, b, c, d] 0) (\<lambda>head.
     or_raise (b64decode rest) (\<lambda>tail. Inr (head @ tail)))"
| "b64decode _ = Inl Base64Error"

subsection \<open>The script body\<close>

definition blue_pixel :: string where
  "blue_pixel = ''iVBORw0KGgoAAAANSUhEUgAAAAEAAAABCAYAAAAfFcSJAAAADUlEQVR42mNkYPhfDwAChwGA60e6kgAAAABJRU5ErkJggg==''"

fun second_script_loop :: "int list \<Rightarrow> world \<Rightarrow> world \<times> error option" where
  "second_script_loop [] w = (w, None)"
| "second_script_loop (size' # rest) w =
     (let filename = ''assets/icons/icon'' @ str size' @ ''.png'';
          w1 = open_wb filename w
      in case b64decode blue_pixel of
           Inl e \<Rightarrow> (w1, Some e)
         | Inr data \<Rightarrow>
             (let w2 = f_write filename data w1;
                  w3 = print (''Created icon'' @ str size' @ ''.png'') w2
              in second_script_loop rest w3))"

definition second_script :: "world \<Rightarrow> world \<times> error option" where
  "second_script w =
     (case second_script_loop sizes w of
        (w', Some e) \<Rightarrow> (w', Some e)
      | (w', None) \<Rightarrow>
          (let w1 = print ''Icon files created. These are placeholder 1x1 blue pixels.'' w';
               w2 = print ''For production, replace with proper icon files.'' w1
           in (w2, None)))"

section \<open>Reading a PNG byte stream back\<close>

text \<open>
  What a PNG reader checks of the container: the eight signature bytes, then chunks,
  each a four-byte big-endian payload length, four type bytes, the payload and a
  four-byte big-endian CRC-32 of type and payload, up to the end of the stream.
  \<open>frame\<close> is that layout written forwards; \<open>read_chunk\<close> and \<open>read_chunks\<close>
  read it back and refuse a stream that is cut short or whose CRC field differs from
  the recomputed one.
\<close>

definition be_value :: "bytes \<Rightarrow> int" where
  "be_value bs = fold (\<lambda>b acc. acc * 256 + uint b) bs 0"

definition frame :: "bytes \<Rightarrow> bytes \<Rightarrow> bytes" where
  "frame ty payload = be32 (int (length payload)) @ ty @ payload @ be32 (crc32 (ty @ payload))"

definition read_chunk :: "bytes \<Rightarrow> ((bytes \<times> bytes) \<times> bytes) option" where
  "read_chunk bs =
     (if length bs < 8 then None
      else
        (let n = nat (be_value (take 4 bs)); ty = take 4 (drop 4 bs); body = drop 8 bs
         in if length body < n + 4 then None
            else
              (let payload = take n body; crc = take 4 (drop n body)
               in if be_value crc = crc32 (ty @ payload)
                  then Some ((ty, payload), drop (n + 4) body)
                  else None)))"

function read_chunks :: "bytes \<Rightarrow> (bytes \<times> bytes) list option" where
  "read_chunks bs =
     (if bs = [] then Some []
      else (case read_chunk bs of
              None \<Rightarrow> None
            | Some (c, rest) \<Rightarrow> map_option (Cons c) (read_chunks rest)))"
  by pat_completeness auto
termination
  by (relation "measure length") (auto simp: read_chunk_def Let_def split: if_splits)

declare read_chunks.simps [simp del]

definition read_png :: "bytes \<Rightarrow> (bytes \<times> bytes) list option" where
  "read_png bs = (if take 8 bs = png_signature then read_chunks (drop 8 bs) else None)"

section \<open>Facts about the library calls\<close>

subsection \<open>CRC-32\<close>

lemma funpow_8: "(f ^^ 8) x = f (f (f (f (f (f (f (f x)))))))"
  by (simp add: eval_nat_numeral)

text \<open>The check value every PNG file ends with: the CRC-32 of the four bytes \<open>IEND\<close>.\<close>

lemma crc32_IEND: "crc32 IEND = 0xAE426082"
  by (simp add: crc32_def IEND_def crc_byte_def funpow_8 crc_shift_def)

lemma crc32_empty: "crc32 [] = 0"
  by (simp add: crc32_def)

lemma crc32_range: "0 \<le> crc32 bs \<and> crc32 bs \<le> 4294967295"
  using uint_lt2p [of "fold crc_byte bs 0xFFFFFFFF XOR 0xFFFFFFFF"]
  by (simp add: crc32_def)

subsection \<open>Big-endian fields\<close>

lemma length_be32: "length (be32 n) = 4"
  by (simp add: be32_def)

lemma div_256: "0 \<le> r \<Longrightarrow> r < 256 \<Longrightarrow> (x * 256 + r) div 256 = (x::int)"
  by simp

lemma be_value_be32:
  assumes "0 \<le> n" and "n \<le> 4294967295"
  shows "be_value (be32 n) = n"
proof -
  define q1 q2 q3 where "q1 = n div 256" and "q2 = q1 div 256" and "q3 = q2 div 256"
  have n2: "n div 65536 = q2"
    using zdiv_zmult2_eq [of 256 n 256] by (simp add: q1_def q2_def)
  have n3: "n div 16777216 = q3"
    using zdiv_zmult2_eq [of 256 n 65536] n2 by (simp add: q3_def)
  have top: "q3 mod 256 = q3"
    using assms n3 by simp
  have "be_value (be32 n) = ((q3 mod 256 * 256 + q2 mod 256) * 256 + q1 mod 256) * 256 + n mod 256"
    by (simp add: be_value_def be32_def uint_word_of_int take_bit_eq_mod n2 n3 q1_def [symmetric])
  also have "\<dots> = ((q2 div 256 * 256 + q2 mod 256) * 256 + q1 mod 256) * 256 + n mod 256"
    unfolding top by (simp only: q3_def)
  also have "\<dots> = (q1 div 256 * 256 + q1 mod 256) * 256 + n mod 256"
    by (simp only: div_mult_mod_eq q2_def)
  also have "\<dots> = n div 256 * 256 + n mod 256"
    by (simp only: div_mult_mod_eq q1_def)
  also have "\<dots> = n"
    by (simp only: div_mult_mod_eq)
  finally show ?thesis .
qed

lemma byte_of_sum: "(word_of_int (k * 256 + uint b) :: byte) = b"
proof -
  have "(word_of_int (k * 256 + uint b) :: byte) = word_of_int (uint b)"
    by (subst word_of_int_eq_iff) (simp add: take_bit_eq_mod)
  then show ?thesis by simp
qed

lemma be32_be_value: "be32 (be_value [a, b, c, d]) = [a, b, c, d]"
proof -
  have bounds: "0 \<le> uint x" "uint x < 256" for x :: byte
    using uint_lt2p [of x] by simp_all
  let ?n = "((uint a * 256 + uint b) * 256 + uint c) * 256 + uint d"
  have d1: "?n div 256 = (uint a * 256 + uint b) * 256 + uint c"
    by (rule div_256) (rule bounds)+
  have "?n div 65536 = ?n div 256 div 256"
    using zdiv_zmult2_eq [of 256 ?n 256] by simp
  also have "\<dots> = uint a * 256 + uint b"
    unfolding d1 by (rule div_256) (rule bounds)+
  finally have d2: "?n div 65536 = uint a * 256 + uint b" .
  have "?n div 16777216 = ?n div 65536 div 256"
    using zdiv_zmult2_eq [of 256 ?n 65536] by simp
  also have "\<dots> = 0 * 256 + uint a"
    unfolding d2 using bounds [of b] by simp
  finally have d3: "?n div 16777216 = 0 * 256 + uint a" .
  have "be32 ?n = [a, b, c, d]"
    unfolding be32_def d1 d2 d3 byte_of_sum by (rule refl)
  moreover have "be_value [a, b, c, d] = ?n"
    by (simp add: be_value_def)
  ultimately show ?thesis by simp
qed

subsection \<open>\<^verbatim>\<open>struct.pack\<close>\<close>

lemma struct_pack_I:
  "0 \<le> n \<Longrightarrow> n \<le> 4294967295 \<Longrightarrow> struct_pack [I] [n] = Inr (be32 n)"
  by simp

lemma struct_pack_I_raises:
  "n < 0 \<or> 4294967295 < n \<Longrightarrow> struct_pack [I] [n] = Inl StructError"
  by auto

lemma struct_pack_header:
  "0 \<le> width \<Longrightarrow> width \<le> 4294967295 \<Longrightarrow> 0 \<le> height \<Longrightarrow> height \<le> 4294967295 \<Longrightarrow>
   struct_pack [I, I, B, B, B, B, B] [width, height, 8, 2, 0, 0, 0]
     = Inr (be32 width @ be32 height @ [8, 2, 0, 0, 0])"
  by simp

lemma struct_pack_header_raises:
  "width < 0 \<or> 4294967295 < width \<or> height < 0 \<or> 4294967295 < height \<Longrightarrow>
   struct_pack [I, I, B, B, B, B, B] [width, height, 8, 2, 0, 0, 0] = Inl StructError"
  by auto

section \<open>Facts about \<^verbatim>\<open>create_minimal_png\<close>\<close>

subsection \<open>The scanline data\<close>

lemma pixel_loop_eq: "pixel_loop n row = row @ concat (replicate n [0x00, 0x77, 0xB5])"
  by (induction n arbitrary: row) simp_all

lemma row_loop_eq:
  "row_loop n width acc
     = acc @ concat (replicate n (0x00 # concat (replicate (nat width) [0x00, 0x77, 0xB5])))"
  by (induction n arbitrary: acc) (simp_all add: pixel_loop_eq replicate_append_same)

lemma raw_data_eq:
  "raw_data width height
     = concat (replicate (nat height) (0x00 # concat (replicate (nat width) [0x00, 0x77, 0xB5])))"
  by (simp add: raw_data_def row_loop_eq)

lemma length_concat_replicate: "length (concat (replicate n xs)) = n * length xs"
  by (induction n) simp_all

lemma length_raw_data: "length (raw_data width height) = nat height * (1 + 3 * nat width)"
  by (simp add: raw_data_eq length_concat_replicate)

subsection \<open>When the function returns and when it raises\<close>

text \<open>
  The function returns exactly when width, height and the length of the compressed
  data fit an unsigned 32-bit field; otherwise one of its \<^verbatim>\<open>struct.pack\<close> calls
  raises. When it returns, the result is the signature followed by three frames.
\<close>

lemma create_minimal_png_eq:
  assumes "0 \<le> width" "width \<le> 4294967295" "0 \<le> height" "height \<le> 4294967295"
    and "length (compress (raw_data width height)) \<le> 4294967295"
  shows "create_minimal_png compress width height
           = Inr (png_signature @ frame IHDR (be32 width @ be32 height @ [8, 2, 0, 0, 0])
                    @ frame IDAT (compress (raw_data width height)) @ frame IEND [])"
proof -
  have crc: "struct_pack [I] [crc32 bs] = Inr (be32 (crc32 bs))" for bs
    using crc32_range [of bs] by (intro struct_pack_I) simp_all
  have len: "struct_pack [I] [int (length (compress (raw_data width height)))]
               = Inr (be32 (int (length (compress (raw_data width height)))))"
    using assms(5) by (intro struct_pack_I) simp_all
  show ?thesis
    unfolding create_minimal_png_def Let_def struct_pack_header [OF assms(1-4)] crc len
    by (simp add: frame_def length_be32)
qed

lemma create_minimal_png_raises:
  assumes "width < 0 \<or> 4294967295 < width \<or> height < 0 \<or> 4294967295 < height
           \<or> 4294967295 < length (compress (raw_data width height))"
  shows "create_minimal_png compress width height = Inl StructError"
proof (cases "width < 0 \<or> 4294967295 < width \<or> height < 0 \<or> 4294967295 < height")
  case True
  then show ?thesis
    unfolding create_minimal_png_def Let_def by (simp only: struct_pack_header_raises or_raise.simps)
next
  case False
  then have hdr: "0 \<le> width" "width \<le> 4294967295" "0 \<le> height" "height \<le> 4294967295"
    by simp_all
  have crc: "struct_pack [I] [crc32 bs] = Inr (be32 (crc32 bs))" for bs
    using crc32_range [of bs] by (intro struct_pack_I) simp_all
  have len: "struct_pack [I] [int (length (compress (raw_data width height)))] = Inl StructError"
    using assms False by (intro struct_pack_I_raises) simp
  show ?thesis
    unfolding create_minimal_png_def Let_def struct_pack_header [OF hdr] crc len
    by simp
qed

section \<open>Facts about the reader\<close>

text \<open>
  The reader accepts a frame and returns its type, its payload and what follows; and
  whatever it accepts is a frame: the length field is the payload's length and the CRC
  field is the CRC-32 of type and payload.
\<close>

lemma read_chunk_frame:
  assumes "length ty = 4" and "length payload \<le> 4294967295"
  shows "read_chunk (frame ty payload @ rest) = Some ((ty, payload), rest)"
proof -
  have n: "nat (be_value (be32 (int (length payload)))) = length payload"
    using assms(2) by (subst be_value_be32) simp_all
  have c: "be_value (be32 (crc32 (ty @ payload))) = crc32 (ty @ payload)"
    using crc32_range [of "ty @ payload"] by (intro be_value_be32) simp_all
  show ?thesis
    unfolding read_chunk_def frame_def Let_def
    using assms(1) by (simp add: length_be32 n c)
qed

lemma be_value_nonneg: "0 \<le> be_value bs"
proof -
  have "0 \<le> acc \<Longrightarrow> 0 \<le> fold (\<lambda>b acc. acc * 256 + uint b) bs acc" for acc
    by (induction bs arbitrary: acc) simp_all
  then show ?thesis by (simp add: be_value_def)
qed

lemma be32_be_value_4:
  assumes "length bs = 4"
  shows "be32 (be_value bs) = bs"
proof -
  from assms obtain a b c d where "bs = [a, b, c, d]"
    by (auto simp: length_Suc_conv eval_nat_numeral)
  then show ?thesis by (simp only: be32_be_value)
qed

lemma read_chunk_sound:
  assumes "read_chunk bs = Some ((ty, payload), rest)"
  shows "bs = frame ty payload @ rest \<and> length ty = 4"
proof -
  define n where "n = nat (be_value (take 4 bs))"
  define body where "body = drop 8 bs"
  from assms have long: "8 \<le> length bs" and body: "n + 4 \<le> length body"
    and ty: "ty = take 4 (drop 4 bs)" and payload: "payload = take n body"
    and crc: "be_value (take 4 (drop n body)) = crc32 (ty @ payload)"
    and rest: "rest = drop (n + 4) body"
    by (auto simp: read_chunk_def Let_def n_def body_def split: if_splits)
  have len_payload: "length payload = n"
    using body by (simp add: payload)
  have "be32 (int (length payload)) = be32 (be_value (take 4 bs))"
    by (simp add: len_payload n_def be_value_nonneg)
  also have "\<dots> = take 4 bs"
    using long by (intro be32_be_value_4) simp
  finally have f1: "be32 (int (length payload)) = take 4 bs" .
  have "be32 (crc32 (ty @ payload)) = be32 (be_value (take 4 (drop n body)))"
    by (simp only: crc)
  also have "\<dots> = take 4 (drop n body)"
    using body by (intro be32_be_value_4) simp
  finally have f2: "be32 (crc32 (ty @ payload)) = take 4 (drop n body)" .
  have "body = take n body @ take 4 (drop n body) @ drop 4 (drop n body)"
    by (simp only: append_take_drop_id)
  then have b: "body = payload @ take 4 (drop n body) @ rest"
    by (simp add: payload rest add.commute)
  have "bs = take 4 bs @ take 4 (drop 4 bs) @ drop 4 (drop 4 bs)"
    by (simp only: append_take_drop_id)
  then have "bs = take 4 bs @ ty @ body"
    by (simp add: ty body_def)
  with b have "bs = take 4 bs @ ty @ payload @ take 4 (drop n body) @ rest"
    by simp
  moreover have "length ty = 4"
    using long by (simp add: ty)
  ultimately show ?thesis
    by (simp add: frame_def f1 f2)
qed

lemma read_chunks_frames:
  assumes "\<forall>c \<in> set cs. length (fst c) = 4 \<and> length (snd c) \<le> 4294967295"
  shows "read_chunks (concat (map (\<lambda>c. frame (fst c) (snd c)) cs)) = Some cs"
  using assms
proof (induction cs)
  case Nil
  show ?case by (simp add: read_chunks.simps)
next
  case (Cons c cs)
  obtain ty payload where c: "c = (ty, payload)" by (cases c)
  have ne: "frame ty payload @ concat (map (\<lambda>c. frame (fst c) (snd c)) cs) \<noteq> []"
    by (simp add: frame_def be32_def)
  from Cons.prems have "length ty = 4" "length payload \<le> 4294967295"
    by (simp_all add: c)
  then have "read_chunk (frame ty payload @ concat (map (\<lambda>c. frame (fst c) (snd c)) cs))
               = Some ((ty, payload), concat (map (\<lambda>c. frame (fst c) (snd c)) cs))"
    by (rule read_chunk_frame)
  moreover have "read_chunks (concat (map (\<lambda>c. frame (fst c) (snd c)) cs)) = Some cs"
    using Cons by simp
  ultimately show ?case
    using ne by (subst read_chunks.simps) (simp add: c)
qed

section \<open>Facts about the two script bodies\<close>

text \<open>The bytes that \<^verbatim>\<open>base64.b64decode(blue_pixel)\<close> returns.\<close>

lemma b64decode_blue_pixel:
  "b64decode blue_pixel = Inr
     [0x89, 0x50, 0x4E, 0x47, 0x0D, 0x0A, 0x1A, 0x0A, 0x00, 0x00, 0x00, 0x0D, 0x49, 0x48,
      0x44, 0x52, 0x00, 0x00, 0x00, 0x01, 0x00, 0x00, 0x00, 0x01, 0x08, 0x06, 0x00, 0x00,
      0x00, 0x1F, 0x15, 0xC4, 0x89, 0x00, 0x00, 0x00, 0x0D, 0x49, 0x44, 0x41, 0x54, 0x78,
      0xDA, 0x63, 0x64, 0x60, 0xF8, 0x5F, 0x0F, 0x00, 0x02, 0x87, 0x01, 0x80, 0xEB, 0x47,
      0xBA, 0x92, 0x00, 0x00, 0x00, 0x00, 0x49, 0x45, 0x4E, 0x44, 0xAE, 0x42, 0x60, 0x82]"
  by (simp add: blue_pixel_def b64_group_def b64_value_def b64_alphabet_def)

lemma str_sizes: "str 16 = ''16''" "str 32 = ''32''" "str 48 = ''48''" "str 128 = ''128''"
  by (simp_all add: str_def digits.simps)

lemma icon_path_sizes:
  "icon_path 16 = ''assets/icons/icon16.png''" "icon_path 32 = ''assets/icons/icon32.png''"
  "icon_path 48 = ''assets/icons/icon48.png''" "icon_path 128 = ''assets/icons/icon128.png''"
  by (simp_all add: icon_path_def str_sizes)

lemma write_whole_file:
  "f_write p d (open_wb p w) = w\<lparr>files := (files w)(p \<mapsto> d), opened := opened w @ [p]\<rparr>"
  by (simp add: f_write_def open_wb_def)

lemma first_script_loop_Cons:
  "first_script_loop compress (s # ss) w =
     (case create_minimal_png compress s s of
        Inl e \<Rightarrow> (w, Some e)
      | Inr png_data \<Rightarrow>
          first_script_loop compress ss
            (print (''Created '' @ icon_path s)
               (w\<lparr>files := (files w)(icon_path s \<mapsto> png_data),
                  opened := opened w @ [icon_path s]\<rparr>)))"
  by (simp only: first_script_loop.simps Let_def write_whole_file icon_path_def)

lemma second_script_loop_Cons:
  "second_script_loop (s # ss) w =
     (case b64decode blue_pixel of
        Inl e \<Rightarrow> (open_wb (icon_path s) w, Some e)
      | Inr data \<Rightarrow>
          second_script_loop ss
            (print (''Created icon'' @ str s @ ''.png'')
               (w\<lparr>files := (files w)(icon_path s \<mapsto> data),
                  opened := opened w @ [icon_path s]\<rparr>)))"
  by (simp only: second_script_loop.simps Let_def write_whole_file icon_path_def)

text \<open>
  A run in which no call raises: what it leaves in the file system, which paths it has
  opened and what it has printed.
\<close>

lemma first_script_loop_ok:
  assumes "\<forall>s \<in> set ss. create_minimal_png compress s s = Inr (g s)"
  shows "first_script_loop compress ss w =
           (w\<lparr>files := fold (\<lambda>s f. f(icon_path s \<mapsto> g s)) ss (files w),
              opened := opened w @ map icon_path ss,
              stdout := stdout w @ map (\<lambda>s. ''Created '' @ icon_path s) ss\<rparr>, None)"
  using assms
proof (induction ss arbitrary: w)
  case Nil
  show ?case by simp
next
  case (Cons s ss)
  from Cons.prems have png: "create_minimal_png compress s s = Inr (g s)"
    and rest: "\<forall>s \<in> set ss. create_minimal_png compress s s = Inr (g s)"
    by simp_all
  show ?case
    unfolding first_script_loop_Cons png Cons.IH [OF rest]
    by (simp add: print_def del: fun_upd_apply)
qed

lemma second_script_loop_ok:
  assumes "b64decode blue_pixel = Inr data"
  shows "second_script_loop ss w =
           (w\<lparr>files := fold (\<lambda>s f. f(icon_path s \<mapsto> data)) ss (files w),
              opened := opened w @ map icon_path ss,
              stdout := stdout w @ map (\<lambda>s. ''Created icon'' @ str s @ ''.png'') ss\<rparr>, None)"
proof (induction ss arbitrary: w)
  case Nil
  show ?case by simp
next
  case (Cons s ss)
  show ?case
    unfolding second_script_loop_Cons assms Cons.IH
    by (simp add: print_def del: fun_upd_apply)
qed

lemma first_script_ok:
  assumes "\<forall>s \<in> set sizes. create_minimal_png compress s s = Inr (g s)"
  shows "first_script compress w =
           (w\<lparr>files := (files w)(''assets/icons/icon16.png'' \<mapsto> g 16,
                 ''assets/icons/icon32.png'' \<mapsto> g 32, ''assets/icons/icon48.png'' \<mapsto> g 48,
                 ''assets/icons/icon128.png'' \<mapsto> g 128),
              opened := opened w @ [''assets/icons/icon16.png'', ''assets/icons/icon32.png'',
                 ''assets/icons/icon48.png'', ''assets/icons/icon128.png''],
              stdout := stdout w @ [''Created assets/icons/icon16.png'',
                 ''Created assets/icons/icon32.png'', ''Created assets/icons/icon48.png'',
                 ''Created assets/icons/icon128.png'',
                 ''All icon files created successfully!'']\<rparr>, None)"
  unfolding first_script_def first_script_loop_ok [OF assms]
  by (simp add: sizes_def icon_path_sizes print_def)

lemma second_script_ok:
  assumes "b64decode blue_pixel = Inr data"
  shows "second_script w =
           (w\<lparr>files := (files w)(''assets/icons/icon16.png'' \<mapsto> data,
                 ''assets/icons/icon32.png'' \<mapsto> data, ''assets/icons/icon48.png'' \<mapsto> data,
                 ''assets/icons/icon128.png'' \<mapsto> data),
              opened := opened w @ [''assets/icons/icon16.png'', ''assets/icons/icon32.png'',
                 ''assets/icons/icon48.png'', ''assets/icons/icon128.png''],
              stdout := stdout w @ [''Created icon16.png'', ''Created icon32.png'',
                 ''Created icon48.png'', ''Created icon128.png'',
                 ''Icon files created. These are placeholder 1x1 blue pixels.'',
                 ''For production, replace with proper icon files.'']\<rparr>, None)"
  unfolding second_script_def second_script_loop_ok [OF assms]
  by (simp add: sizes_def icon_path_sizes str_sizes print_def)

lemma sizes_in_range:
  assumes "s \<in> set sizes"
  shows "0 \<le> s \<and> s \<le> 4294967295"
  using assms by (auto simp: sizes_def)

text \<open>
  The output of \<^verbatim>\<open>create_minimal_png\<close> reads back as exactly three chunks.
\<close>

lemma read_png_three_frames:
  assumes "length ihdr \<le> 4294967295" and "length idat \<le> 4294967295"
  shows "read_png (png_signature @ frame IHDR ihdr @ frame IDAT idat @ frame IEND [])
           = Some [(IHDR, ihdr), (IDAT, idat), (IEND, [])]"
proof -
  have "read_chunks (concat (map (\<lambda>c. frame (fst c) (snd c))
                       [(IHDR, ihdr), (IDAT, idat), (IEND, [])]))
          = Some [(IHDR, ihdr), (IDAT, idat), (IEND, [])]"
    using assms by (intro read_chunks_frames) (simp add: IHDR_def IDAT_def IEND_def)
  then show ?thesis
    by (simp add: read_png_def png_signature_def)
qed

lemma create_minimal_png_reads_back:
  assumes "0 \<le> width" "width \<le> 4294967295" "0 \<le> height" "height \<le> 4294967295"
    and "length (compress (raw_data width height)) \<le> 4294967295"
  shows "\<exists>png_data. create_minimal_png compress width height = Inr png_data
           \<and> png_data = png_signature @ frame IHDR (be32 width @ be32 height @ [8, 2, 0, 0, 0])
                @ frame IDAT (compress (raw_data width height)) @ frame IEND []
           \<and> read_png png_data = Some [(IHDR, be32 width @ be32 height @ [8, 2, 0, 0, 0]),
                (IDAT, compress (raw_data width height)), (IEND, [])]"
proof -
  have "read_png (png_signature @ frame IHDR (be32 width @ be32 height @ [8, 2, 0, 0, 0])
                @ frame IDAT (compress (raw_data width height)) @ frame IEND [])
         = Some [(IHDR, be32 width @ be32 height @ [8, 2, 0, 0, 0]),
                (IDAT, compress (raw_data width height)), (IEND, [])]"
    using assms(5) by (intro read_png_three_frames) (simp_all add: length_be32)
  with create_minimal_png_eq [where compress = compress, OF assms] show ?thesis
    by simp
qed

text \<open>
  Whatever the world before, a run of either script has one and the same effect: it
  overwrites a fixed set of files with fixed contents, opens a fixed sequence of paths,
  prints a fixed sequence of lines and ends in a fixed way. This holds for the first
  script also when a call raises.
\<close>

lemma first_script_loop_effect:
  "\<exists>M ps out e. \<forall>w. first_script_loop compress ss w =
     (w\<lparr>files := files w ++ M, opened := opened w @ ps, stdout := stdout w @ out\<rparr>, e)"
proof (induction ss)
  case Nil
  have "\<forall>w. first_script_loop compress [] w =
     (w\<lparr>files := files w ++ Map.empty, opened := opened w @ [], stdout := stdout w @ []\<rparr>, None)"
    by simp
  then show ?case by blast
next
  case (Cons s ss)
  show ?case
  proof (cases "create_minimal_png compress s s")
    case (Inl e)
    then have "\<forall>w. first_script_loop compress (s # ss) w =
       (w\<lparr>files := files w ++ Map.empty, opened := opened w @ [], stdout := stdout w @ []\<rparr>, Some e)"
      by (simp add: first_script_loop_Cons)
    then show ?thesis by blast
  next
    case (Inr png_data)
    from Cons.IH obtain M ps out e where rest: "\<And>w. first_script_loop compress ss w =
       (w\<lparr>files := files w ++ M, opened := opened w @ ps, stdout := stdout w @ out\<rparr>, e)"
      by blast
    have "\<forall>w. first_script_loop compress (s # ss) w =
       (w\<lparr>files := files w ++ ([icon_path s \<mapsto> png_data] ++ M),
          opened := opened w @ (icon_path s # ps),
          stdout := stdout w @ ((''Created '' @ icon_path s) # out)\<rparr>, e)"
      unfolding first_script_loop_Cons Inr rest
      by (simp add: print_def del: fun_upd_apply)
    then show ?thesis by blast
  qed
qed

lemma first_script_effect:
  "\<exists>M ps out e. \<forall>w. first_script compress w =
     (w\<lparr>files := files w ++ M, opened := opened w @ ps, stdout := stdout w @ out\<rparr>, e)"
proof -
  from first_script_loop_effect [of compress sizes]
  obtain M ps out e where loop: "\<And>w. first_script_loop compress sizes w =
       (w\<lparr>files := files w ++ M, opened := opened w @ ps, stdout := stdout w @ out\<rparr>, e)"
    by blast
  show ?thesis
  proof (cases e)
    case None
    have "\<forall>w. first_script compress w =
       (w\<lparr>files := files w ++ M, opened := opened w @ ps,
          stdout := stdout w @ (out @ [''All icon files created successfully!''])\<rparr>, None)"
      unfolding first_script_def loop None by (simp add: print_def)
    then show ?thesis by blast
  next
    case (Some err)
    have "\<forall>w. first_script compress w =
       (w\<lparr>files := files w ++ M, opened := opened w @ ps, stdout := stdout w @ out\<rparr>, Some err)"
      unfolding first_script_def loop Some by simp
    then show ?thesis by blast
  qed
qed

lemma second_script_effect:
  "\<exists>M ps out e. \<forall>w. second_script w =
     (w\<lparr>files := files w ++ M, opened := opened w @ ps, stdout := stdout w @ out\<rparr>, e)"
proof -
  have "\<forall>w. second_script w =
     (w\<lparr>files := files w ++ [''assets/icons/icon16.png'' \<mapsto> data,
                 ''assets/icons/icon32.png'' \<mapsto> data, ''assets/icons/icon48.png'' \<mapsto> data,
                 ''assets/icons/icon128.png'' \<mapsto> data],
        opened := opened w @ [''assets/icons/icon16.png'', ''assets/icons/icon32.png'',
                 ''assets/icons/icon48.png'', ''assets/icons/icon128.png''],
        stdout := stdout w @ [''Created icon16.png'', ''Created icon32.png'',
                 ''Created icon48.png'', ''Created icon128.png'',
                 ''Icon files created. These are placeholder 1x1 blue pixels.'',
                 ''For production, replace with proper icon files.'']\<rparr>, None)"
    if "b64decode blue_pixel = Inr data" for data
    unfolding second_script_ok [OF that] by (simp del: fun_upd_apply)
  with b64decode_blue_pixel show ?thesis by blast
qed

lemma overwrite_twice:
  assumes "\<And>w. run w = (w\<lparr>files := files w ++ M, opened := opened w @ ps, stdout := stdout w @ out\<rparr>, e)"
  shows "files (fst (run (fst (run w)))) = files (fst (run w))"
proof -
  have "M ++ M = M"
    by (rule ext) (simp add: map_add_def split: option.split)
  then have "files w ++ M ++ M = files w ++ M"
    by (simp only: map_add_assoc [symmetric])
  then show ?thesis
    by (simp add: assms)
qed

section \<open>The claims\<close>

text \<open>
  In the theorems about the first script, \<open>compress\<close> stands for \<^verbatim>\<open>zlib.compress\<close>,
  and the hypothesis on the length of its output says that this length fits the
  unsigned 32-bit length field of the IDAT chunk, as it does for zlib on the scanline
  data of the four icon sizes.
\<close>

text \<open>
  Claim C5. For every size in 16, 32, 48 and 128, the file that the first script
  writes for that size begins with the eight bytes of the PNG signature:
  \<open>0x89\<close>, \<open>P\<close>, \<open>N\<close>, \<open>G\<close>, \<open>0x0D\<close>, \<open>0x0A\<close>, \<open>0x1A\<close>, \<open>0x0A\<close>.
\<close>

theorem first_script_files_start_with_signature:
  assumes "\<forall>s \<in> set sizes. length (compress (raw_data s s)) \<le> 4294967295"
  shows "\<forall>s \<in> set sizes. \<exists>png_data.
           files (fst (first_script compress w)) (''assets/icons/icon'' @ str s @ ''.png'')
             = Some png_data
           \<and> take 8 png_data = [0x89, 0x50, 0x4E, 0x47, 0x0D, 0x0A, 0x1A, 0x0A]"
proof -
  define g where "g s = png_signature @ frame IHDR (be32 s @ be32 s @ [8, 2, 0, 0, 0])
                    @ frame IDAT (compress (raw_data s s)) @ frame IEND []" for s
  have ok: "\<forall>s \<in> set sizes. create_minimal_png compress s s = Inr (g s)"
    using assms sizes_in_range unfolding g_def by (intro ballI create_minimal_png_eq) simp_all
  have run: "files (fst (first_script compress w)) =
      (files w)(''assets/icons/icon16.png'' \<mapsto> g 16, ''assets/icons/icon32.png'' \<mapsto> g 32,
        ''assets/icons/icon48.png'' \<mapsto> g 48, ''assets/icons/icon128.png'' \<mapsto> g 128)"
    unfolding first_script_ok [OF ok] by simp
  have sig: "take 8 (g s) = [0x89, 0x50, 0x4E, 0x47, 0x0D, 0x0A, 0x1A, 0x0A]" for s
    by (simp add: g_def png_signature_def)
  show ?thesis
    unfolding run by (simp add: sizes_def str_sizes sig)
qed

theorem first_script_files_start_with_signature_witness:
  "length (id (raw_data 16 16)) \<le> 4294967295 \<and> length (id (raw_data 32 32)) \<le> 4294967295
   \<and> length (id (raw_data 48 48)) \<le> 4294967295 \<and> length (id (raw_data 128 128)) \<le> 4294967295
   \<and> (\<exists>png_data.
         files (fst (first_script id \<lparr>files = Map.empty, opened = [], stdout = []\<rparr>))
           ''assets/icons/icon16.png'' = Some png_data
         \<and> take 8 png_data = [0x89, 0x50, 0x4E, 0x47, 0x0D, 0x0A, 0x1A, 0x0A])"
proof -
  have fits: "\<forall>s \<in> set sizes. length (id (raw_data s s)) \<le> 4294967295"
    by (simp add: sizes_def length_raw_data)
  have "(16::int) \<in> set sizes"
    by (simp add: sizes_def)
  with first_script_files_start_with_signature [OF fits, of "\<lparr>files = Map.empty, opened = [], stdout = []\<rparr>"]
  have "\<exists>png_data.
         files (fst (first_script id \<lparr>files = Map.empty, opened = [], stdout = []\<rparr>))
           (''assets/icons/icon'' @ str 16 @ ''.png'') = Some png_data
         \<and> take 8 png_data = [0x89, 0x50, 0x4E, 0x47, 0x0D, 0x0A, 0x1A, 0x0A]"
    by blast
  with fits show ?thesis
    by (simp add: str_sizes sizes_def)
qed

text \<open>
  Claim C1. For every size in 16, 32, 48 and 128, \<^verbatim>\<open>create_minimal_png(size, size)\<close>
  returns a structurally valid PNG: the signature, then an IHDR chunk with length field
  13 and a 13-byte payload, an IDAT chunk whose length field is the length of the
  compressed data, and an IEND chunk with length field 0 and no payload, each chunk
  ending with the big-endian CRC-32 of its type bytes followed by its payload bytes. A
  reader that recomputes every CRC and follows every length field reads the output back
  as exactly these three chunks.
\<close>

theorem create_minimal_png_valid_for_icon_sizes:
  assumes "size' \<in> {16, 32, 48, 128}"
    and "length (compress (raw_data size' size')) \<le> 4294967295"
  shows "\<exists>png_data ihdr_data compressed.
           create_minimal_png compress size' size' = Inr png_data
           \<and> compressed = compress (raw_data size' size')
           \<and> png_data = png_signature
                @ (be32 13 @ IHDR @ ihdr_data @ be32 (crc32 (IHDR @ ihdr_data)))
                @ (be32 (int (length compressed)) @ IDAT @ compressed
                     @ be32 (crc32 (IDAT @ compressed)))
                @ (be32 0 @ IEND @ [] @ be32 (crc32 (IEND @ [])))
           \<and> length ihdr_data = 13
           \<and> read_png png_data = Some [(IHDR, ihdr_data), (IDAT, compressed), (IEND, [])]"
proof -
  from assms(1) have range: "0 \<le> size'" "size' \<le> 4294967295"
    by auto
  from create_minimal_png_reads_back [where compress = compress, OF range range assms(2)]
  show ?thesis
    by (simp add: frame_def length_be32)
qed

theorem create_minimal_png_valid_for_icon_sizes_witness:
  "(16::int) \<in> {16, 32, 48, 128} \<and> length (id (raw_data 16 16)) \<le> 4294967295
   \<and> (\<exists>png_data ihdr_data.
         create_minimal_png id 16 16 = Inr png_data \<and> length ihdr_data = 13
         \<and> read_png png_data = Some [(IHDR, ihdr_data), (IDAT, raw_data 16 16), (IEND, [])])"
proof -
  have fits: "length (id (raw_data 16 16)) \<le> 4294967295"
    by (simp add: length_raw_data)
  have member: "(16::int) \<in> {16, 32, 48, 128}"
    by simp
  from create_minimal_png_valid_for_icon_sizes [where compress = id, OF member fits] fits
  show ?thesis
    by auto
qed

text \<open>
  Claim C2, as the code has it. \<^verbatim>\<open>struct.pack\<close> raises on a width or height beyond
  \<open>2^32 - 1\<close>, so the claim holds for widths and heights from 0 to \<open>2^32 - 1\<close> whose
  compressed scanline data fits the IDAT length field: the output then carries, after
  the signature, the length field 13, the type \<open>IHDR\<close>, a 13-byte payload made of the
  width and the height as 4-byte big-endian integers, bit depth 8, colour type 2 and
  three zero bytes, and the big-endian CRC-32 of \<open>IHDR\<close> followed by that payload. The
  declared width and height, read back from the payload, are the requested ones.
\<close>

theorem ihdr_chunk_of_create_minimal_png:
  assumes "0 \<le> width" "width \<le> 4294967295" "0 \<le> height" "height \<le> 4294967295"
    and "length (compress (raw_data width height)) \<le> 4294967295"
  shows "\<exists>png_data ihdr_data.
           create_minimal_png compress width height = Inr png_data
           \<and> take 4 (drop 8 png_data) = [0, 0, 0, 13]
           \<and> take 4 (drop 12 png_data) = IHDR
           \<and> take 13 (drop 16 png_data) = ihdr_data
           \<and> ihdr_data = be32 width @ be32 height @ [8, 2, 0, 0, 0]
           \<and> length ihdr_data = 13
           \<and> take 4 (drop 29 png_data) = be32 (crc32 (IHDR @ ihdr_data))
           \<and> be_value (take 4 ihdr_data) = width
           \<and> be_value (take 4 (drop 4 ihdr_data)) = height
           \<and> drop 8 ihdr_data = [8, 2, 0, 0, 0]"
proof -
  let ?ihdr = "be32 width @ be32 height @ [8, 2, 0, 0, 0]"
  let ?rest = "frame IDAT (compress (raw_data width height)) @ frame IEND []"
  let ?png = "png_signature @ frame IHDR ?ihdr @ ?rest"
  have len: "length ?ihdr = 13"
    by (simp add: length_be32)
  have layout: "take 4 (drop 8 (png_signature @ frame IHDR ihdr @ rest)) = [0, 0, 0, 13]
        \<and> take 4 (drop 12 (png_signature @ frame IHDR ihdr @ rest)) = IHDR
        \<and> take 13 (drop 16 (png_signature @ frame IHDR ihdr @ rest)) = ihdr
        \<and> take 4 (drop 29 (png_signature @ frame IHDR ihdr @ rest)) = be32 (crc32 (IHDR @ ihdr))"
    if "length ihdr = 13" for ihdr rest
    using that by (simp add: png_signature_def frame_def IHDR_def length_be32) (simp add: be32_def)
  note at = layout [OF len, of ?rest]
  have ret: "create_minimal_png compress width height = Inr ?png"
    using assms by (rule create_minimal_png_eq)
  have w: "be_value (take 4 ?ihdr) = width"
    using assms(1,2) by (simp add: length_be32 be_value_be32)
  have h: "be_value (take 4 (drop 4 ?ihdr)) = height"
    using assms(3,4) by (simp add: length_be32 be_value_be32)
  have tail: "drop 8 ?ihdr = [8, 2, 0, 0, 0]"
    by (simp add: length_be32)
  from ret at len w h tail show ?thesis
    by blast
qed

theorem ihdr_chunk_of_create_minimal_png_witness:
  "(0::int) \<le> 16 \<and> (16::int) \<le> 4294967295 \<and> length (id (raw_data 16 16)) \<le> 4294967295
   \<and> (\<exists>png_data.
         create_minimal_png id 16 16 = Inr png_data
         \<and> take 13 (drop 16 png_data) = [0, 0, 0, 16, 0, 0, 0, 16, 8, 2, 0, 0, 0])"
proof -
  have fits: "length (id (raw_data 16 16)) \<le> 4294967295"
    by (simp add: length_raw_data)
  from ihdr_chunk_of_create_minimal_png [where compress = id and width = 16 and height = 16, OF _ _ _ _ fits]
  have "\<exists>png_data.
         create_minimal_png id 16 16 = Inr png_data
         \<and> take 13 (drop 16 png_data) = be32 16 @ be32 16 @ [8, 2, 0, 0, 0]"
    by auto
  with fits show ?thesis
    by (simp add: be32_def)
qed

text \<open>
  Claim C2 as stated fails on a non-negative width that does not fit 32 bits: the call
  raises \<^verbatim>\<open>struct.error\<close> and produces no IHDR chunk.
\<close>

theorem create_minimal_png_wide_counterexample:
  "create_minimal_png id 4294967296 1 = Inl StructError"
  by (simp add: create_minimal_png_def)

text \<open>
  Claim C4, as the code has it: for widths and heights from 0 to \<open>2^32 - 1\<close> whose
  compressed scanline data fits the IDAT length field, the scanline data that
  \<^verbatim>\<open>create_minimal_png\<close> assembles consists of exactly \<open>height\<close> rows, each the filter
  byte \<open>0x00\<close> followed by \<open>width\<close> times the pixel \<open>0x00 0x77 0xB5\<close>, so that it is
  \<open>height * (1 + 3 * width)\<close> bytes long, and the payload of the IDAT chunk of the output
  is the compression of exactly this data.
\<close>

theorem scanlines_and_idat_of_create_minimal_png:
  assumes "0 \<le> width" "width \<le> 4294967295" "0 \<le> height" "height \<le> 4294967295"
    and "length (compress (raw_data width height)) \<le> 4294967295"
  shows "raw_data width height
           = concat (replicate (nat height)
               ([0x00] @ concat (replicate (nat width) [0x00, 0x77, 0xB5])))
         \<and> length (raw_data width height) = nat height * (1 + 3 * nat width)
         \<and> (\<exists>png_data ihdr_data.
               create_minimal_png compress width height = Inr png_data
               \<and> read_png png_data = Some [(IHDR, ihdr_data),
                    (IDAT, compress (raw_data width height)), (IEND, [])])"
proof -
  from create_minimal_png_reads_back [where compress = compress, OF assms]
  have "\<exists>png_data ihdr_data.
          create_minimal_png compress width height = Inr png_data
          \<and> read_png png_data = Some [(IHDR, ihdr_data),
               (IDAT, compress (raw_data width height)), (IEND, [])]"
    by blast
  moreover have "raw_data width height
           = concat (replicate (nat height)
               ([0x00] @ concat (replicate (nat width) [0x00, 0x77, 0xB5])))"
    by (simp add: raw_data_eq)
  ultimately show ?thesis
    using length_raw_data [of width height] by blast
qed

theorem scanlines_and_idat_of_create_minimal_png_witness:
  "(0::int) \<le> 2 \<and> (2::int) \<le> 4294967295 \<and> (0::int) \<le> 1 \<and> (1::int) \<le> 4294967295
   \<and> length (id (raw_data 2 1)) \<le> 4294967295
   \<and> raw_data 2 1 = [0x00, 0x00, 0x77, 0xB5, 0x00, 0x77, 0xB5]
   \<and> (\<exists>png_data ihdr_data.
         create_minimal_png id 2 1 = Inr png_data
         \<and> read_png png_data = Some [(IHDR, ihdr_data),
              (IDAT, [0x00, 0x00, 0x77, 0xB5, 0x00, 0x77, 0xB5]), (IEND, [])])"
proof -
  have fits: "length (id (raw_data 2 1)) \<le> 4294967295"
    by (simp add: length_raw_data)
  have raw: "raw_data 2 1 = [0x00, 0x00, 0x77, 0xB5, 0x00, 0x77, 0xB5]"
    by (simp add: raw_data_eq eval_nat_numeral)
  have "raw_data 2 1
           = concat (replicate (nat 1) ([0x00] @ concat (replicate (nat 2) [0x00, 0x77, 0xB5])))
         \<and> length (raw_data 2 1) = nat 1 * (1 + 3 * nat 2)
         \<and> (\<exists>png_data ihdr_data.
               create_minimal_png id 2 1 = Inr png_data
               \<and> read_png png_data = Some [(IHDR, ihdr_data),
                    (IDAT, id (raw_data 2 1)), (IEND, [])])"
    by (rule scanlines_and_idat_of_create_minimal_png) (simp_all add: length_raw_data)
  then have "\<exists>png_data ihdr_data.
         create_minimal_png id 2 1 = Inr png_data
         \<and> read_png png_data = Some [(IHDR, ihdr_data), (IDAT, id (raw_data 2 1)), (IEND, [])]"
    by blast
  with fits raw show ?thesis
    by simp
qed

text \<open>
  Claim C4 as stated fails on a non-negative height that does not fit 32 bits: the call
  raises \<^verbatim>\<open>struct.error\<close> when it packs the header, before any scanline is assembled,
  and there is no IDAT chunk.
\<close>

theorem create_minimal_png_tall_counterexample:
  "create_minimal_png id 1 4294967296 = Inl StructError"
  by (simp add: create_minimal_png_def)

text \<open>
  Claim C6, as the code has it: for widths and heights from 0 to \<open>2^32 - 1\<close> whose
  compressed scanline data fits the IDAT length field, the bytes returned are, in this
  order and with nothing before, between or after them: the 8-byte signature, the IHDR
  chunk, one IDAT chunk, and an IEND chunk with length field 0, no payload and the
  CRC-32 of the four type bytes \<open>IEND\<close> alone, which makes its twelve bytes the same in
  every output.
\<close>

theorem create_minimal_png_concatenation:
  assumes "0 \<le> width" "width \<le> 4294967295" "0 \<le> height" "height \<le> 4294967295"
    and "length (compress (raw_data width height)) \<le> 4294967295"
  shows "\<exists>ihdr_data compressed.
           ihdr_data = be32 width @ be32 height @ [8, 2, 0, 0, 0]
           \<and> compressed = compress (raw_data width height)
           \<and> create_minimal_png compress width height
               = Inr ([0x89, 0x50, 0x4E, 0x47, 0x0D, 0x0A, 0x1A, 0x0A]
                      @ ([0, 0, 0, 13] @ IHDR @ ihdr_data @ be32 (crc32 (IHDR @ ihdr_data)))
                      @ (be32 (int (length compressed)) @ IDAT @ compressed
                           @ be32 (crc32 (IDAT @ compressed)))
                      @ ([0, 0, 0, 0] @ IEND @ [] @ be32 (crc32 IEND)))
           \<and> [0, 0, 0, 0] @ IEND @ [] @ be32 (crc32 IEND)
               = [0, 0, 0, 0, 0x49, 0x45, 0x4E, 0x44, 0xAE, 0x42, 0x60, 0x82]"
proof -
  have "be32 13 = [0, 0, 0, 13]" and "be32 0 = [0, 0, 0, 0]"
    by (simp_all add: be32_def)
  moreover have "be32 (crc32 IEND) = [0xAE, 0x42, 0x60, 0x82]"
    unfolding crc32_IEND by (simp add: be32_def)
  ultimately show ?thesis
    using create_minimal_png_eq [where compress = compress, OF assms]
    by (simp add: frame_def length_be32 png_signature_def IEND_def)
qed

theorem create_minimal_png_concatenation_witness:
  "(0::int) \<le> 1 \<and> (1::int) \<le> 4294967295 \<and> length (id (raw_data 1 1)) \<le> 4294967295
   \<and> create_minimal_png id 1 1
       = Inr ([0x89, 0x50, 0x4E, 0x47, 0x0D, 0x0A, 0x1A, 0x0A]
              @ ([0, 0, 0, 13] @ IHDR @ (be32 1 @ be32 1 @ [8, 2, 0, 0, 0])
                   @ be32 (crc32 (IHDR @ be32 1 @ be32 1 @ [8, 2, 0, 0, 0])))
              @ (be32 (int (length (raw_data 1 1))) @ IDAT @ raw_data 1 1
                   @ be32 (crc32 (IDAT @ raw_data 1 1)))
              @ [0, 0, 0, 0, 0x49, 0x45, 0x4E, 0x44, 0xAE, 0x42, 0x60, 0x82])"
proof -
  have fits: "length (id (raw_data 1 1)) \<le> 4294967295"
    by (simp add: length_raw_data)
  from create_minimal_png_concatenation
         [where compress = id and width = 1 and height = 1, OF _ _ _ _ fits] fits
  show ?thesis
    by simp
qed

text \<open>
  Claim C6 as stated fails on non-negative arguments that do not fit 32 bits: the call
  raises \<^verbatim>\<open>struct.error\<close> and returns no byte sequence.
\<close>

theorem create_minimal_png_huge_counterexample:
  "create_minimal_png id 5000000000 5000000000 = Inl StructError"
  by (simp add: create_minimal_png_def)

text \<open>
  Claim C10, as the code has it: \<^verbatim>\<open>create_minimal_png\<close> returns a byte sequence, without
  raising, on every width and height from 0 to \<open>2^32 - 1\<close> whose compressed scanline data
  fits the IDAT length field, the degenerate cases of width 0 and of height 0
  included, and the output reads back as the three chunks with consistent length and
  CRC-32 fields. With height 0 the scanline loop produces the empty byte string, and
  the IDAT payload is the compression of the empty byte string; with width 0 it
  produces one filter byte per row, \<open>height\<close> zero bytes.
\<close>

theorem create_minimal_png_returns_in_range:
  assumes "0 \<le> width" "width \<le> 4294967295" "0 \<le> height" "height \<le> 4294967295"
    and "length (compress (raw_data width height)) \<le> 4294967295"
  shows "(\<exists>png_data ihdr_data.
            create_minimal_png compress width height = Inr png_data
            \<and> read_png png_data = Some [(IHDR, ihdr_data),
                 (IDAT, compress (raw_data width height)), (IEND, [])]
            \<and> length ihdr_data = 13)
         \<and> (height = 0 \<longrightarrow> raw_data width height = [])
         \<and> (width = 0 \<longrightarrow> raw_data width height = replicate (nat height) 0x00)"
proof -
  have "raw_data width 0 = []"
    by (simp add: raw_data_eq)
  moreover have "raw_data 0 height = replicate (nat height) 0x00"
    by (induction "nat height") (simp_all add: raw_data_eq)
  moreover from create_minimal_png_reads_back [where compress = compress, OF assms]
  have "\<exists>png_data ihdr_data.
            create_minimal_png compress width height = Inr png_data
            \<and> read_png png_data = Some [(IHDR, ihdr_data),
                 (IDAT, compress (raw_data width height)), (IEND, [])]
            \<and> length ihdr_data = 13"
    by (simp add: length_be32)
  ultimately show ?thesis
    by blast
qed

theorem create_minimal_png_returns_in_range_witness:
  "(0::int) \<le> 0 \<and> (0::int) \<le> 4294967295 \<and> length (id (raw_data 0 0)) \<le> 4294967295
   \<and> raw_data 0 0 = []
   \<and> (\<exists>png_data ihdr_data.
         create_minimal_png id 0 0 = Inr png_data
         \<and> read_png png_data = Some [(IHDR, ihdr_data), (IDAT, []), (IEND, [])])"
proof -
  have "(\<exists>png_data ihdr_data.
            create_minimal_png id 0 0 = Inr png_data
            \<and> read_png png_data = Some [(IHDR, ihdr_data), (IDAT, id (raw_data 0 0)), (IEND, [])]
            \<and> length ihdr_data = 13)
         \<and> ((0::int) = 0 \<longrightarrow> raw_data 0 0 = [])
         \<and> ((0::int) = 0 \<longrightarrow> raw_data 0 0 = replicate (nat 0) 0x00)"
    by (rule create_minimal_png_returns_in_range) (simp_all add: length_raw_data)
  then have "raw_data 0 0 = []"
    and "\<exists>png_data ihdr_data.
            create_minimal_png id 0 0 = Inr png_data
            \<and> read_png png_data = Some [(IHDR, ihdr_data), (IDAT, id (raw_data 0 0)), (IEND, [])]"
    by blast+
  then show ?thesis
    by simp
qed

text \<open>
  Claim C10 as stated fails twice: with width 0 and height 1 the scanline data is the
  single filter byte, not the empty byte string; and on a non-negative width that does
  not fit 32 bits the call raises \<^verbatim>\<open>struct.error\<close>.
\<close>

theorem create_minimal_png_degenerate_counterexample:
  "raw_data 0 1 = [0x00] \<and> raw_data 0 1 \<noteq> []
   \<and> create_minimal_png id 4294967296 0 = Inl StructError"
  by (simp add: create_minimal_png_def raw_data_def)

text \<open>
  Claim C3. For every size in 16, 32, 48 and 128, the file that the second script
  leaves at \<^verbatim>\<open>assets/icons/icon<size>.png\<close> holds exactly the bytes that
  \<^verbatim>\<open>base64.b64decode(blue_pixel)\<close> returns, whatever the size: the four files have the
  same contents.
\<close>

theorem second_script_files_are_decoded_blue_pixel:
  "\<exists>data. b64decode blue_pixel = Inr data
     \<and> (\<forall>s \<in> set sizes.
           files (fst (second_script w)) (''assets/icons/icon'' @ str s @ ''.png'') = Some data)"
proof -
  obtain data where d: "b64decode blue_pixel = Inr data"
    using b64decode_blue_pixel by blast
  have "files (fst (second_script w)) (''assets/icons/icon'' @ str s @ ''.png'') = Some data"
    if "s \<in> set sizes" for s
    using that unfolding second_script_ok [OF d]
    by (auto simp: sizes_def str_sizes)
  with d show ?thesis
    by blast
qed

theorem second_script_files_are_decoded_blue_pixel_witness:
  "\<exists>data. b64decode blue_pixel = Inr data
     \<and> files (fst (second_script \<lparr>files = Map.empty, opened = [], stdout = []\<rparr>))
          ''assets/icons/icon16.png'' = Some data
     \<and> files (fst (second_script \<lparr>files = Map.empty, opened = [], stdout = []\<rparr>))
          ''assets/icons/icon128.png'' = Some data"
proof -
  from second_script_files_are_decoded_blue_pixel [of "\<lparr>files = Map.empty, opened = [], stdout = []\<rparr>"]
  obtain data where d: "b64decode blue_pixel = Inr data"
    and all: "\<forall>s \<in> set sizes.
           files (fst (second_script \<lparr>files = Map.empty, opened = [], stdout = []\<rparr>))
             (''assets/icons/icon'' @ str s @ ''.png'') = Some data"
    by blast
  have "(16::int) \<in> set sizes" and "(128::int) \<in> set sizes"
    by (simp_all add: sizes_def)
  with all have "files (fst (second_script \<lparr>files = Map.empty, opened = [], stdout = []\<rparr>))
             (''assets/icons/icon'' @ str 16 @ ''.png'') = Some data"
    and "files (fst (second_script \<lparr>files = Map.empty, opened = [], stdout = []\<rparr>))
             (''assets/icons/icon'' @ str 128 @ ''.png'') = Some data"
    by blast+
  with d show ?thesis
    by (simp add: str_sizes)
qed

text \<open>
  Claim C8. Each script writes exactly one file per size, for the sizes 16, 32, 48 and
  128 in this order: it opens for writing exactly the four paths
  \<^verbatim>\<open>assets/icons/icon16.png\<close>, \<^verbatim>\<open>icon32.png\<close>, \<^verbatim>\<open>icon48.png\<close> and \<^verbatim>\<open>icon128.png\<close> of
  that directory, once each, which are the paths built from the sizes, and ends without
  an exception. Afterwards the file at each of these paths holds the bytes the script
  wrote there, what \<^verbatim>\<open>create_minimal_png(size, size)\<close> returned in the first script and
  what \<^verbatim>\<open>base64.b64decode(blue_pixel)\<close> returned in the second, and every other path of
  the file system is left as it was.
\<close>

theorem scripts_write_one_file_per_size:
  assumes "\<forall>s \<in> set sizes. length (compress (raw_data s s)) \<le> 4294967295"
  shows "opened (fst (first_script compress w))
           = opened w @ [''assets/icons/icon16.png'', ''assets/icons/icon32.png'',
                         ''assets/icons/icon48.png'', ''assets/icons/icon128.png'']
         \<and> snd (first_script compress w) = None
         \<and> opened (fst (second_script w))
           = opened w @ [''assets/icons/icon16.png'', ''assets/icons/icon32.png'',
                         ''assets/icons/icon48.png'', ''assets/icons/icon128.png'']
         \<and> snd (second_script w) = None
         \<and> (\<forall>p. p \<notin> {''assets/icons/icon16.png'', ''assets/icons/icon32.png'',
                       ''assets/icons/icon48.png'', ''assets/icons/icon128.png''}
                \<longrightarrow> files (fst (first_script compress w)) p = files w p
                    \<and> files (fst (second_script w)) p = files w p)
         \<and> (\<forall>p \<in> {''assets/icons/icon16.png'', ''assets/icons/icon32.png'',
                       ''assets/icons/icon48.png'', ''assets/icons/icon128.png''}.
                files (fst (first_script compress w)) p \<noteq> None
                \<and> files (fst (second_script w)) p \<noteq> None)
         \<and> map icon_path sizes = [''assets/icons/icon16.png'', ''assets/icons/icon32.png'',
                         ''assets/icons/icon48.png'', ''assets/icons/icon128.png'']
         \<and> (\<exists>png16 png32 png48 png128.
               create_minimal_png compress 16 16 = Inr png16
               \<and> create_minimal_png compress 32 32 = Inr png32
               \<and> create_minimal_png compress 48 48 = Inr png48
               \<and> create_minimal_png compress 128 128 = Inr png128
               \<and> files (fst (first_script compress w))
                   = (files w)(''assets/icons/icon16.png'' \<mapsto> png16,
                        ''assets/icons/icon32.png'' \<mapsto> png32,
                        ''assets/icons/icon48.png'' \<mapsto> png48,
                        ''assets/icons/icon128.png'' \<mapsto> png128))
         \<and> (\<exists>data.
               b64decode blue_pixel = Inr data
               \<and> files (fst (second_script w))
                   = (files w)(''assets/icons/icon16.png'' \<mapsto> data,
                        ''assets/icons/icon32.png'' \<mapsto> data,
                        ''assets/icons/icon48.png'' \<mapsto> data,
                        ''assets/icons/icon128.png'' \<mapsto> data))"
proof -
  define g where "g s = png_signature @ frame IHDR (be32 s @ be32 s @ [8, 2, 0, 0, 0])
                    @ frame IDAT (compress (raw_data s s)) @ frame IEND []" for s
  have ok: "\<forall>s \<in> set sizes. create_minimal_png compress s s = Inr (g s)"
    using assms sizes_in_range unfolding g_def by (intro ballI create_minimal_png_eq) simp_all
  obtain data where d: "b64decode blue_pixel = Inr data"
    using b64decode_blue_pixel by blast
  have pngs: "create_minimal_png compress 16 16 = Inr (g 16)"
    "create_minimal_png compress 32 32 = Inr (g 32)"
    "create_minimal_png compress 48 48 = Inr (g 48)"
    "create_minimal_png compress 128 128 = Inr (g 128)"
    using ok by (simp_all add: sizes_def)
  have first_files: "\<exists>png16 png32 png48 png128.
               create_minimal_png compress 16 16 = Inr png16
               \<and> create_minimal_png compress 32 32 = Inr png32
               \<and> create_minimal_png compress 48 48 = Inr png48
               \<and> create_minimal_png compress 128 128 = Inr png128
               \<and> files (fst (first_script compress w))
                   = (files w)(''assets/icons/icon16.png'' \<mapsto> png16,
                        ''assets/icons/icon32.png'' \<mapsto> png32,
                        ''assets/icons/icon48.png'' \<mapsto> png48,
                        ''assets/icons/icon128.png'' \<mapsto> png128)"
    unfolding first_script_ok [OF ok] pngs by (simp del: fun_upd_apply)
  have second_files: "\<exists>data.
               b64decode blue_pixel = Inr data
               \<and> files (fst (second_script w))
                   = (files w)(''assets/icons/icon16.png'' \<mapsto> data,
                        ''assets/icons/icon32.png'' \<mapsto> data,
                        ''assets/icons/icon48.png'' \<mapsto> data,
                        ''assets/icons/icon128.png'' \<mapsto> data)"
    unfolding second_script_ok [OF d] d by (simp del: fun_upd_apply)
  have rest: "opened (fst (first_script compress w))
           = opened w @ [''assets/icons/icon16.png'', ''assets/icons/icon32.png'',
                         ''assets/icons/icon48.png'', ''assets/icons/icon128.png'']
         \<and> snd (first_script compress w) = None
         \<and> opened (fst (second_script w))
           = opened w @ [''assets/icons/icon16.png'', ''assets/icons/icon32.png'',
                         ''assets/icons/icon48.png'', ''assets/icons/icon128.png'']
         \<and> snd (second_script w) = None
         \<and> (\<forall>p. p \<notin> {''assets/icons/icon16.png'', ''assets/icons/icon32.png'',
                       ''assets/icons/icon48.png'', ''assets/icons/icon128.png''}
                \<longrightarrow> files (fst (first_script compress w)) p = files w p
                    \<and> files (fst (second_script w)) p = files w p)
         \<and> (\<forall>p \<in> {''assets/icons/icon16.png'', ''assets/icons/icon32.png'',
                       ''assets/icons/icon48.png'', ''assets/icons/icon128.png''}.
                files (fst (first_script compress w)) p \<noteq> None
                \<and> files (fst (second_script w)) p \<noteq> None)
         \<and> map icon_path sizes = [''assets/icons/icon16.png'', ''assets/icons/icon32.png'',
                         ''assets/icons/icon48.png'', ''assets/icons/icon128.png'']"
    unfolding first_script_ok [OF ok] second_script_ok [OF d]
    by (simp add: sizes_def icon_path_sizes)
  from rest first_files second_files show ?thesis
    by (elim conjE, intro conjI) assumption+
qed

theorem scripts_write_one_file_per_size_witness:
  "length (id (raw_data 16 16)) \<le> 4294967295 \<and> length (id (raw_data 32 32)) \<le> 4294967295
   \<and> length (id (raw_data 48 48)) \<le> 4294967295 \<and> length (id (raw_data 128 128)) \<le> 4294967295
   \<and> opened (fst (first_script id \<lparr>files = Map.empty, opened = [], stdout = []\<rparr>))
         = [''assets/icons/icon16.png'', ''assets/icons/icon32.png'',
            ''assets/icons/icon48.png'', ''assets/icons/icon128.png'']
   \<and> opened (fst (second_script \<lparr>files = Map.empty, opened = [], stdout = []\<rparr>))
         = [''assets/icons/icon16.png'', ''assets/icons/icon32.png'',
            ''assets/icons/icon48.png'', ''assets/icons/icon128.png'']
   \<and> files (fst (first_script id \<lparr>files = Map.empty, opened = [], stdout = []\<rparr>))
         ''assets/icons/icon64.png'' = None
   \<and> files (fst (second_script \<lparr>files = Map.empty, opened = [], stdout = []\<rparr>))
         ''assets/icons/icon16.png'' \<noteq> None
   \<and> map_option Inr
         (files (fst (first_script id \<lparr>files = Map.empty, opened = [], stdout = []\<rparr>))
            ''assets/icons/icon16.png'') = Some (create_minimal_png id 16 16)
   \<and> map_option Inr
         (files (fst (second_script \<lparr>files = Map.empty, opened = [], stdout = []\<rparr>))
            ''assets/icons/icon128.png'') = Some (b64decode blue_pixel)"
proof -
  have fits: "\<forall>s \<in> set sizes. length (id (raw_data s s)) \<le> 4294967295"
    by (simp add: sizes_def length_raw_data)
  note run = scripts_write_one_file_per_size
         [where compress = id and w = "\<lparr>files = Map.empty, opened = [], stdout = []\<rparr>", OF fits]
  from run obtain png16 png32 png48 png128 where
    "create_minimal_png id 16 16 = Inr png16"
    and "files (fst (first_script id \<lparr>files = Map.empty, opened = [], stdout = []\<rparr>))
                   = (Map.empty)(''assets/icons/icon16.png'' \<mapsto> png16,
                        ''assets/icons/icon32.png'' \<mapsto> png32,
                        ''assets/icons/icon48.png'' \<mapsto> png48,
                        ''assets/icons/icon128.png'' \<mapsto> png128)"
    by auto
  then have c1: "map_option Inr
         (files (fst (first_script id \<lparr>files = Map.empty, opened = [], stdout = []\<rparr>))
            ''assets/icons/icon16.png'') = Some (create_minimal_png id 16 16)"
    by simp
  from run obtain data where "b64decode blue_pixel = Inr data"
    and "files (fst (second_script \<lparr>files = Map.empty, opened = [], stdout = []\<rparr>))
                   = (Map.empty)(''assets/icons/icon16.png'' \<mapsto> data,
                        ''assets/icons/icon32.png'' \<mapsto> data,
                        ''assets/icons/icon48.png'' \<mapsto> data,
                        ''assets/icons/icon128.png'' \<mapsto> data)"
    by auto
  then have c2: "map_option Inr
         (files (fst (second_script \<lparr>files = Map.empty, opened = [], stdout = []\<rparr>))
            ''assets/icons/icon128.png'') = Some (b64decode blue_pixel)"
    by simp
  from run fits c1 c2 show ?thesis
    by (simp add: sizes_def)
qed

text \<open>
  Claim C9, as the code has it: the first script prints one status line per file
  written, four lines, and then exactly one summary line; the second script prints one
  status line per file written, four lines, and then exactly two closing lines, the
  summary and the note on production use. Neither prints anything else.
\<close>

theorem scripts_console_output:
  assumes "\<forall>s \<in> set sizes. length (compress (raw_data s s)) \<le> 4294967295"
  shows "stdout (fst (first_script compress w))
           = stdout w @ [''Created assets/icons/icon16.png'', ''Created assets/icons/icon32.png'',
                         ''Created assets/icons/icon48.png'', ''Created assets/icons/icon128.png'',
                         ''All icon files created successfully!'']
         \<and> stdout (fst (second_script w))
           = stdout w @ [''Created icon16.png'', ''Created icon32.png'',
                         ''Created icon48.png'', ''Created icon128.png'',
                         ''Icon files created. These are placeholder 1x1 blue pixels.'',
                         ''For production, replace with proper icon files.'']"
proof -
  define g where "g s = png_signature @ frame IHDR (be32 s @ be32 s @ [8, 2, 0, 0, 0])
                    @ frame IDAT (compress (raw_data s s)) @ frame IEND []" for s
  have ok: "\<forall>s \<in> set sizes. create_minimal_png compress s s = Inr (g s)"
    using assms sizes_in_range unfolding g_def by (intro ballI create_minimal_png_eq) simp_all
  obtain data where d: "b64decode blue_pixel = Inr data"
    using b64decode_blue_pixel by blast
  show ?thesis
    unfolding first_script_ok [OF ok] second_script_ok [OF d]
    by simp
qed

theorem scripts_console_output_witness:
  "length (id (raw_data 16 16)) \<le> 4294967295 \<and> length (id (raw_data 32 32)) \<le> 4294967295
   \<and> length (id (raw_data 48 48)) \<le> 4294967295 \<and> length (id (raw_data 128 128)) \<le> 4294967295
   \<and> length (stdout (fst (first_script id \<lparr>files = Map.empty, opened = [], stdout = []\<rparr>))) = 5
   \<and> last (stdout (fst (first_script id \<lparr>files = Map.empty, opened = [], stdout = []\<rparr>)))
        = ''All icon files created successfully!''"
proof -
  have fits: "\<forall>s \<in> set sizes. length (id (raw_data s s)) \<le> 4294967295"
    by (simp add: sizes_def length_raw_data)
  from scripts_console_output
         [where compress = id and w = "\<lparr>files = Map.empty, opened = [], stdout = []\<rparr>", OF fits]
       fits
  show ?thesis
    by (simp add: sizes_def)
qed

text \<open>
  Claim C9 as stated fails for the second script: after its four status lines it
  prints two lines, not one, six lines in all.
\<close>

theorem second_script_prints_two_final_lines_counterexample:
  "stdout (fst (second_script \<lparr>files = Map.empty, opened = [], stdout = []\<rparr>))
     = [''Created icon16.png'', ''Created icon32.png'', ''Created icon48.png'',
        ''Created icon128.png'',
        ''Icon files created. These are placeholder 1x1 blue pixels.'',
        ''For production, replace with proper icon files.'']
   \<and> length (stdout (fst (second_script \<lparr>files = Map.empty, opened = [], stdout = []\<rparr>))) = 6"
  unfolding second_script_ok [OF b64decode_blue_pixel] by simp

text \<open>
  Claim C7. Both scripts are deterministic: the files, the paths opened, the lines
  printed and the way a run ends do not depend on the world the run starts in, and a
  second run leaves every file exactly as the first run left it. The functions of the
  model, \<^verbatim>\<open>create_minimal_png\<close> and \<^verbatim>\<open>b64decode\<close> among them, return equal results on
  equal arguments by construction.
\<close>

theorem scripts_are_deterministic:
  "(\<exists>M ps out e. \<forall>w. first_script compress w =
       (w\<lparr>files := files w ++ M, opened := opened w @ ps, stdout := stdout w @ out\<rparr>, e))
   \<and> (\<exists>M ps out e. \<forall>w. second_script w =
       (w\<lparr>files := files w ++ M, opened := opened w @ ps, stdout := stdout w @ out\<rparr>, e))
   \<and> files (fst (first_script compress (fst (first_script compress w))))
        = files (fst (first_script compress w))
   \<and> files (fst (second_script (fst (second_script w)))) = files (fst (second_script w))"
proof -
  have "files (fst (first_script compress (fst (first_script compress w))))
        = files (fst (first_script compress w))"
    using first_script_effect [of compress] overwrite_twice [of "first_script compress"]
    by metis
  moreover have "files (fst (second_script (fst (second_script w)))) = files (fst (second_script w))"
    using second_script_effect overwrite_twice [of second_script]
    by metis
  ultimately show ?thesis
    using first_script_effect [of compress] second_script_effect by blast
qed

theorem scripts_are_deterministic_witness:
  "files (fst (first_script id
            (fst (first_script id \<lparr>files = Map.empty, opened = [], stdout = []\<rparr>))))
     = files (fst (first_script id \<lparr>files = Map.empty, opened = [], stdout = []\<rparr>))
   \<and> files (fst (second_script
            (fst (second_script \<lparr>files = Map.empty, opened = [], stdout = []\<rparr>))))
     = files (fst (second_script \<lparr>files = Map.empty, opened = [], stdout = []\<rparr>))"
  using scripts_are_deterministic
          [where compress = id and w = "\<lparr>files = Map.empty, opened = [], stdout = []\<rparr>"]
  by blast

end
